theory Spec2Isabelle
  imports Complex_Main "HOL-Library.AList" "HOL-Library.List_Lexorder" "HOL-Library.Char_ord"
begin

section \<open>Plot helpers of dabl (\<open>dabl/plot/utils.py\<close>)\<close>

text \<open>
  The helpers are modelled as HOL functions over Python's unbounded integers (\<open>int\<close>),
  idealised floating point numbers (\<open>real\<close>) and lists. Every exception the code can
  raise is a value of \<open>py_error\<close>; a function that can raise returns
  \<open>py_error + result\<close>, with \<open>Inl\<close> for the exception. A \<open>ValueError\<close> carries the
  fixed part of its message.
\<close>

datatype py_error =
    ZeroDivisionError
  | AssertionError
  | KeyError
  | TypeError
  | ValueError string

subsection \<open>\<open>find_pretty_grid\<close>\<close>

text \<open>
  \<open>int(np.ceil(a / b))\<close>: the quotient is a double in the source. The model takes the
  exact ceiling of the exact quotient, which is what the double computation yields for
  operands far below \<open>2^53\<close> (plot counts); \<open>int(a / b)\<close> is only reached when \<open>b\<close>
  divides \<open>a\<close>, where it is the exact quotient \<open>a div b\<close>.
\<close>

definition ceil_div :: "int \<Rightarrow> int \<Rightarrow> int" where
  "ceil_div a b = - ((- a) div b)"

text \<open>
  The body of the \<open>for cols in range(max_cols, min_rows - 1, -1)\<close> loop, with the loop
  variable \<open>cols\<close> and the two variables the loop updates as arguments. Python's \<open>%\<close>
  agrees with \<open>mod\<close> on \<open>int\<close> (the result has the sign of the divisor) and raises
  \<open>ZeroDivisionError\<close> for a zero divisor. Leaving the loop reaches the last
  \<open>return\<close> of the function.
\<close>

function grid_scan :: "int \<Rightarrow> int \<Rightarrow> int \<Rightarrow> int \<Rightarrow> int \<Rightarrow> py_error + (int \<times> int)" where
  "grid_scan n_plots min_rows cols best_empty best_cols =
     (if cols < min_rows then Inr (ceil_div n_plots best_cols, best_cols)
      else if cols = 0 then Inl ZeroDivisionError
      else
        let remainder = n_plots mod cols;
            empty = (if remainder \<noteq> 0 then cols - remainder else 0)
        in if empty = 0 then Inr (n_plots div cols, cols)
           else if empty < best_empty
             then grid_scan n_plots min_rows (cols - 1) empty cols
             else grid_scan n_plots min_rows (cols - 1) best_empty best_cols)"
  by pat_completeness auto
termination
  by (relation "measure (\<lambda>(n_plots, min_rows, cols, best_empty, best_cols).
        nat (cols + 1 - min_rows))") auto

definition find_pretty_grid :: "int \<Rightarrow> int \<Rightarrow> py_error + (int \<times> int)" where
  "find_pretty_grid n_plots max_cols =
     (if max_cols = 0 then Inl ZeroDivisionError
      else if n_plots mod max_cols = 0 then Inr (n_plots div max_cols, max_cols)
      else
        let min_rows = ceil_div n_plots max_cols
        in grid_scan n_plots min_rows max_cols max_cols max_cols)"


subsection \<open>Outlier trimming: \<open>_inlier_range\<close>, \<open>_find_inliers\<close>, \<open>_clean_outliers\<close>\<close>

text \<open>
  A numeric series is a list of optional reals, \<open>None\<close> for a missing entry (NaN).
  \<open>quantile\<close> is the quantile of numpy and pandas with their default linear
  interpolation, on the values that are present: the value at the virtual index
  \<open>(n - 1) * q\<close> of the sorted values, and NaN (\<open>None\<close>) when there is no value.
  \<open>np.nanquantile(series, q)\<close> and \<open>series.dropna().quantile(q)\<close> are both
  \<open>quantile (dropna series) q\<close>.
\<close>

type_synonym num_series = "real option list"

definition dropna :: "'a option list \<Rightarrow> 'a list" where
  "dropna series = [v. Some v \<leftarrow> series]"


definition quantile :: "real list \<Rightarrow> real \<Rightarrow> real option" where
  "quantile vs q =
     (if vs = [] then None
      else
        let xs = sort vs;
            h = real (length xs - 1) * q;
            lo = nat \<lfloor>h\<rfloor>;
            hi = min (lo + 1) (length xs - 1)
        in Some (xs ! lo + (h - real lo) * (xs ! hi - xs ! lo)))"

definition nanquantile :: "num_series \<Rightarrow> real \<Rightarrow> real option" where
  "nanquantile series q = quantile (dropna series) q"

text \<open>
  \<open>_inlier_range\<close>. A comparison with NaN is false, so \<open>assert low < high\<close> also fails
  when the series has no value at all.
\<close>

definition inlier_range :: "num_series \<Rightarrow> py_error + (real \<times> real)" where
  "inlier_range series =
     (case (nanquantile series (1 / 100), nanquantile series (99 / 100)) of
        (Some low, Some high) \<Rightarrow>
          if low < high
          then let inner_range = (high - low) / 2
               in Inr (low - inner_range, high + inner_range)
          else Inl AssertionError
      | _ \<Rightarrow> Inl AssertionError)"



















text \<open>The widened percentile interval of a series, as both functions compute it.\<close>

definition in_widened :: "num_series \<Rightarrow> real \<Rightarrow> bool" where
  "in_widened series v =
     (case (nanquantile series (1 / 100), nanquantile series (99 / 100)) of
        (Some low, Some high) \<Rightarrow>
          low - (high - low) / 2 \<le> v \<and> v \<le> high + (high - low) / 2
      | _ \<Rightarrow> False)"


subsection \<open>\<open>plot_coefficients\<close>: validation of the arguments\<close>

text \<open>
  An array of numpy is its shape and its entries in row-major order. \<open>squeeze\<close> removes
  the axes of length one, \<open>ravel\<close> flattens, \<open>len\<close> of a flat array is the number of its
  entries.
\<close>

record ndarray =
  shape :: "nat list"
  entries :: "real list"

definition well_shaped :: "ndarray \<Rightarrow> bool" where
  "well_shaped a = (length (entries a) = prod_list (shape a))"

definition squeeze :: "ndarray \<Rightarrow> ndarray" where
  "squeeze a = a\<lparr>shape := filter (\<lambda>d. d \<noteq> 1) (shape a)\<rparr>"

definition ndim :: "ndarray \<Rightarrow> nat" where
  "ndim a = length (shape a)"

definition ravel :: "ndarray \<Rightarrow> ndarray" where
  "ravel a = a\<lparr>shape := [length (entries a)]\<rparr>"

text \<open>
  \<open>plot_coefficients\<close> up to its second check (lines 90 to 101). What follows in the
  source selects the bars and draws them on the charting surface; the model returns the
  flattened coefficients and the feature names that are handed on.
\<close>

definition plot_coefficients :: "ndarray \<Rightarrow> string list \<Rightarrow> py_error + (real list \<times> string list)" where
  "plot_coefficients coefficients feature_names =
     (let coefficients = squeeze coefficients
      in if ndim coefficients > 1
         then Inl (ValueError ''coefficients must be 1d array or column vector'')
         else
           let coefficients = ravel coefficients
           in if length (entries coefficients) \<noteq> length feature_names
              then Inl (ValueError ''Number of coefficients does not match number of feature names'')
              else Inr (entries coefficients, feature_names))"

subsection \<open>\<open>class_hists\<close>: the bin edges\<close>







subsection \<open>Series and tables of pandas\<close>

text \<open>
  A value in a table is a number or a string; a missing entry (NaN, \<open>None\<close>) is
  \<open>None\<close>. The order on values is the one that sorts the categories of a column: numbers
  by size, strings as Python compares them, and (where Python has no order) numbers
  before strings.
\<close>

datatype cell = Num real | Str string

instantiation cell :: linorder
begin

fun less_eq_cell :: "cell \<Rightarrow> cell \<Rightarrow> bool" where
  "less_eq_cell (Num a) (Num b) = (a \<le> b)"
| "less_eq_cell (Num a) (Str t) = True"
| "less_eq_cell (Str s) (Num b) = False"
| "less_eq_cell (Str s) (Str t) = (s \<le> t)"

definition less_cell :: "cell \<Rightarrow> cell \<Rightarrow> bool" where
  "less_cell x y = (x \<le> y \<and> \<not> y \<le> x)"

instance
proof
  fix x y z :: cell
  show "(x < y) = (x \<le> y \<and> \<not> y \<le> x)" by (simp add: less_cell_def)
  show "x \<le> x" by (cases x) simp_all
  show "x \<le> y \<Longrightarrow> y \<le> z \<Longrightarrow> x \<le> z" by (cases x; cases y; cases z) auto
  show "x \<le> y \<Longrightarrow> y \<le> x \<Longrightarrow> x = y" by (cases x; cases y) auto
  show "x \<le> y \<or> y \<le> x" by (cases x; cases y) auto
qed

end

text \<open>
  A column has a dtype: numeric (\<open>float64\<close>, also what an integer column with a missing
  entry becomes), \<open>object\<close>, or \<open>category\<close> with its list of categories. A table is the
  list of its named columns, in their order.
\<close>

record categorical =
  categories :: "cell list"
  codes :: "cell option list"

datatype column =
    FloatCol "real option list"
  | ObjectCol "cell option list"
  | CategoryCol categorical

type_synonym frame = "(string \<times> column) list"

fun values_of :: "column \<Rightarrow> cell option list" where
  "values_of (FloatCol vs) = map (map_option Num) vs"
| "values_of (ObjectCol vs) = vs"
| "values_of (CategoryCol c) = codes c"

text \<open>
  The invariant of a categorical series in pandas: its categories are distinct, and
  every entry that is present is one of them.
\<close>

definition wf_categorical :: "categorical \<Rightarrow> bool" where
  "wf_categorical c =
     (distinct (categories c) \<and> (\<forall>v\<in>set (codes c). case v of None \<Rightarrow> True | Some x \<Rightarrow> x \<in> set (categories c)))"

definition wf_column :: "column \<Rightarrow> bool" where
  "wf_column col = (case col of CategoryCol c \<Rightarrow> wf_categorical c | _ \<Rightarrow> True)"

text \<open>\<open>series.nunique()\<close>: the number of distinct values, not counting missing entries.\<close>

definition nunique :: "column \<Rightarrow> nat" where
  "nunique c = length (remdups (dropna (values_of c)))"

subsection \<open>\<open>_prune_categories\<close>\<close>

text \<open>
  \<open>astype('category')\<close> keeps a categorical series as it is and gives any other series
  the sorted list of its distinct values as categories.
\<close>

fun astype_category :: "column \<Rightarrow> categorical" where
  "astype_category (CategoryCol c) = c"
| "astype_category col =
     \<lparr>categories = sort (remdups (dropna (values_of col))), codes = values_of col\<rparr>"

text \<open>
  \<open>value_counts()\<close> of a categorical series counts every category and lists the
  categories by descending count; the model keeps categories of equal count in the
  order of the categories. Only the index of the result is used.
\<close>

definition count_of :: "categorical \<Rightarrow> cell \<Rightarrow> nat" where
  "count_of c x = length (filter (\<lambda>v. v = Some x) (codes c))"

definition value_counts :: "categorical \<Rightarrow> cell list" where
  "value_counts c = sort_key (\<lambda>x. - int (count_of c x)) (categories c)"

text \<open>Python's \<open>xs[k:]\<close>; a negative \<open>k\<close> counts from the end.\<close>

definition slice_from :: "int \<Rightarrow> 'a list \<Rightarrow> 'a list" where
  "slice_from k xs =
     (if 0 \<le> k then drop (nat k) xs else drop (nat (int (length xs) + k)) xs)"

text \<open>
  \<open>remove_categories\<close> sets the entries of a removed category to NaN and raises for a
  removal that is no category; \<open>add_categories\<close> raises when a new category is already
  one; \<open>fillna\<close> of a categorical series raises for a fill value that is no category.
\<close>

definition remove_categories :: "cell list \<Rightarrow> categorical \<Rightarrow> py_error + categorical" where
  "remove_categories removals c =
     (if \<not> set removals \<subseteq> set (categories c)
      then Inl (ValueError ''removals must all be in old categories'')
      else Inr \<lparr>categories = filter (\<lambda>x. x \<notin> set removals) (categories c),
                codes = map (\<lambda>v. case v of None \<Rightarrow> None
                                   | Some x \<Rightarrow> if x \<in> set removals then None else Some x) (codes c)\<rparr>)"

definition add_categories :: "cell list \<Rightarrow> categorical \<Rightarrow> py_error + categorical" where
  "add_categories new_categories c =
     (if set new_categories \<inter> set (categories c) \<noteq> {}
      then Inl (ValueError ''new categories must not include old categories'')
      else Inr (c\<lparr>categories := categories c @ new_categories\<rparr>))"

definition fillna_categorical :: "cell \<Rightarrow> categorical \<Rightarrow> py_error + categorical" where
  "fillna_categorical v c =
     (if v \<notin> set (categories c) then Inl (ValueError ''fill value must be in categories'')
      else Inr (c\<lparr>codes := map (\<lambda>x. case x of None \<Rightarrow> Some v | Some y \<Rightarrow> Some y) (codes c)\<rparr>))"

definition prune_categories :: "column \<Rightarrow> int \<Rightarrow> py_error + categorical" where
  "prune_categories series max_categories =
     (let series = astype_category series;
          small_categories = slice_from max_categories (value_counts series)
      in case remove_categories small_categories series of
           Inl e \<Rightarrow> Inl e
         | Inr res \<Rightarrow>
             (case add_categories [Str ''dabl_other''] res of
                Inl e \<Rightarrow> Inl e
              | Inr res \<Rightarrow> fillna_categorical (Str ''dabl_other'') res))"

text \<open>The categories that \<open>_prune_categories\<close> keeps: the first of \<open>value_counts()\<close>.\<close>

definition kept_categories :: "column \<Rightarrow> int \<Rightarrow> cell list" where
  "kept_categories series max_categories =
     take (nat max_categories) (value_counts (astype_category series))"

subsection \<open>Tables on the heap: \<open>_prune_category_make_X\<close>, \<open>_fill_missing_categorical\<close>\<close>

text \<open>
  A table is an object that the caller and the callee share, so the functions that copy
  or change tables work on a heap: the list of the tables allocated so far, a table
  being named by its position. A function returns its result or exception together with
  the heap it leaves. \<open>X.copy()\<close> and \<open>X[[name]]\<close> allocate a new table.
\<close>

type_synonym ref = nat
type_synonym heap = "frame list"

definition alloc :: "heap \<Rightarrow> frame \<Rightarrow> ref \<times> heap" where
  "alloc h f = (length h, h @ [f])"

text \<open>\<open>X[name] = column\<close> replaces the column of that name or appends a new one.\<close>

definition set_column :: "heap \<Rightarrow> ref \<Rightarrow> string \<Rightarrow> column \<Rightarrow> heap" where
  "set_column h r name c = h[r := AList.update name c (h ! r)]"

definition prune_category_make_X :: "heap \<Rightarrow> ref \<Rightarrow> string \<Rightarrow> string \<Rightarrow> int \<Rightarrow> (py_error + ref) \<times> heap" where
  "prune_category_make_X h X col target_col max_categories =
     (case map_of (h ! X) col of
        None \<Rightarrow> (Inl KeyError, h)
      | Some col_values \<Rightarrow>
          if int (nunique col_values) > max_categories
          then
            (case prune_categories col_values (min 10 max_categories) of
               Inl e \<Rightarrow> (Inl e, h)
             | Inr pruned \<Rightarrow>
                 (case map_of (h ! X) target_col of
                    None \<Rightarrow> (Inl KeyError, h)
                  | Some target \<Rightarrow>
                      let (selected, h) = alloc h [(target_col, target)];
                          (X_new, h) = alloc h (h ! selected)
                      in (Inr X_new, set_column h X_new col (CategoryCol pruned))))
          else
            let (X_new, h) = alloc h (h ! X);
                categorical = astype_category (the (map_of (h ! X_new) col))
            in (Inr X_new, set_column h X_new col (CategoryCol categorical)))"

text \<open>
  \<open>_fill_missing_categorical\<close>. \<open>X.max(numeric_only=True).max()\<close> is the greatest entry
  of the numeric columns and NaN when they have no entry; NaN plus one is NaN, and
  filling with NaN changes nothing. \<open>X[col].fillna(value, inplace=True)\<close> writes into the
  table \<open>X\<close>, which at that point is the copy.
\<close>

definition numeric_entries :: "frame \<Rightarrow> real list" where
  "numeric_entries f = concat (map (\<lambda>(name, c). case c of FloatCol vs \<Rightarrow> dropna vs | _ \<Rightarrow> []) f)"

definition max_numeric :: "frame \<Rightarrow> real option" where
  "max_numeric f = (if numeric_entries f = [] then None else Some (Max (set (numeric_entries f))))"

definition fillna :: "'a option \<Rightarrow> 'a option list \<Rightarrow> 'a option list" where
  "fillna v vs = map (\<lambda>x. case x of None \<Rightarrow> v | Some y \<Rightarrow> Some y) vs"

definition fill_column :: "real option \<Rightarrow> column \<Rightarrow> py_error + column" where
  "fill_column fill_value c =
     (case c of
        ObjectCol vs \<Rightarrow> Inr (ObjectCol (fillna (Some (Str ''dabl_missing'')) vs))
      | FloatCol vs \<Rightarrow> Inr (FloatCol (fillna fill_value vs))
      | CategoryCol cat \<Rightarrow>
          (case fill_value of
             None \<Rightarrow> Inr (CategoryCol cat)
           | Some v \<Rightarrow> map_sum id CategoryCol (fillna_categorical (Num v) cat)))"

fun fill_columns :: "heap \<Rightarrow> ref \<Rightarrow> real option \<Rightarrow> string list \<Rightarrow> (py_error + ref) \<times> heap" where
  "fill_columns h X fill_value [] = (Inr X, h)"
| "fill_columns h X fill_value (col # cols) =
     (case fill_column fill_value (the (map_of (h ! X) col)) of
        Inl e \<Rightarrow> (Inl e, h)
      | Inr filled \<Rightarrow> fill_columns (set_column h X col filled) X fill_value cols)"

definition fill_missing_categorical :: "heap \<Rightarrow> ref \<Rightarrow> (py_error + ref) \<times> heap" where
  "fill_missing_categorical h X =
     (let (X, h) = alloc h (h ! X);
          max_value = max_numeric (h ! X)
      in fill_columns h X (map_option (\<lambda>m. m + 1) max_value) (map fst (h ! X)))"

text \<open>
  What the loop makes of one column that is not categorical, and the tables that have
  no categorical column.
\<close>

definition filled_column :: "real option \<Rightarrow> column \<Rightarrow> column" where
  "filled_column fill_value c =
     (case c of
        ObjectCol vs \<Rightarrow> ObjectCol (fillna (Some (Str ''dabl_missing'')) vs)
      | FloatCol vs \<Rightarrow> FloatCol (fillna fill_value vs)
      | CategoryCol cat \<Rightarrow> CategoryCol cat)"

definition plain_columns :: "frame \<Rightarrow> bool" where
  "plain_columns f = list_all (\<lambda>(name, c). case c of CategoryCol cat \<Rightarrow> False | _ \<Rightarrow> True) f"

definition count_missing :: "frame \<Rightarrow> nat" where
  "count_missing f = length (filter (\<lambda>x. x = None) (concat (map (\<lambda>(name, c). values_of c) f)))"

subsection \<open>\<open>_check_X_target_col\<close>\<close>

text \<open>
  The detected types of a table give, for each column, whether it is categorical and
  whether it is continuous (among other kinds). \<open>detect_types\<close> is defined outside of
  this module and is a parameter of the model. The target column is given by a name or
  by a list; a list of at most one name is not hashable, so looking it up among the
  columns raises \<open>TypeError\<close>. The message of the error for fewer than two classes
  reads \<open>X.loc[0, target_col]\<close>, the entry at the row label \<open>0\<close>; the row labels of
  the table are the argument \<open>index\<close>, and the lookup raises \<open>KeyError\<close> when \<open>0\<close> is
  not one of them.
\<close>

record kinds =
  is_categorical :: bool
  is_continuous :: bool

type_synonym types = "string \<rightharpoonup> kinds"

datatype target = Name string | Names "string list"

definition check_X_target_col ::
    "(frame \<Rightarrow> 'h \<Rightarrow> py_error + types) \<Rightarrow> cell list \<Rightarrow> frame \<Rightarrow> target \<Rightarrow> types option \<Rightarrow> 'h
      \<Rightarrow> string option \<Rightarrow> py_error + types" where
  "check_X_target_col detect_types index X target_col types type_hints task =
     (case (case types of None \<Rightarrow> detect_types X type_hints | Some t \<Rightarrow> Inr t) of
        Inl e \<Rightarrow> Inl e
      | Inr types \<Rightarrow>
          (case target_col of
             Names names \<Rightarrow>
               if length names > 1 then Inl (ValueError ''target_col should be a column in X'')
               else Inl TypeError
           | Name name \<Rightarrow>
               (case map_of X name of
                  None \<Rightarrow> Inl (ValueError ''is not a valid column of X'')
                | Some column \<Rightarrow>
                    if nunique column < 2
                    then (if Num 0 \<in> set index
                          then Inl (ValueError ''Less than two classes present'')
                          else Inl KeyError)
                    else if task = Some ''classification''
                    then (case types name of
                            None \<Rightarrow> Inl KeyError
                          | Some k \<Rightarrow>
                              if \<not> is_categorical k
                              then Inl (ValueError ''need categorical for classification'')
                              else Inr types)
                    else if task = Some ''regression''
                    then (case types name of
                            None \<Rightarrow> Inl KeyError
                          | Some k \<Rightarrow>
                              if \<not> is_continuous k
                              then Inl (ValueError ''need continuous for regression'')
                              else Inr types)
                    else Inr types)))"

section \<open>Properties\<close>

subsection \<open>The grid search\<close>

declare grid_scan.simps [simp del]









lemma grid_scan_neg_returns:
  "cols < 0 \<Longrightarrow> \<exists>r c. grid_scan N R cols be bc = Inr (r, c)"
proof (induction N R cols be bc rule: grid_scan.induct)
  case (1 N R cols be bc)
  have n: "cols - 1 < 0" "cols \<noteq> 0" using "1.prems" by simp_all
  show ?case
    using "1.IH"(1) [OF _ n(2) refl refl _ _ n(1)] "1.IH"(2) [OF _ n(2) refl refl _ _ n(1)] n
    by (subst grid_scan.simps) (auto simp: Let_def)
qed

lemma grid_scan_pos_returns:
  "0 < cols \<Longrightarrow> \<exists>r c. grid_scan N R cols be bc = Inr (r, c)"
proof (induction N R cols be bc rule: grid_scan.induct)
  case (1 N R cols be bc)
  have n: "cols \<noteq> 0" using "1.prems" by simp
  show ?case
  proof (cases "cols = 1")
    case True
    then show ?thesis by (subst grid_scan.simps) simp
  next
    case False
    then have p: "0 < cols - 1" using "1.prems" by simp
    show ?thesis
      using "1.IH"(1) [OF _ n refl refl _ _ p] "1.IH"(2) [OF _ n refl refl _ _ p] n
      by (subst grid_scan.simps) (auto simp: Let_def)
  qed
qed



text \<open>
  Claim C7, as the code has it. The function validates nothing. It raises exactly when
  \<open>max_cols = 0\<close>, and then the exception is the \<open>ZeroDivisionError\<close> of
  \<open>n_plots % max_cols\<close>; for every other input, also with \<open>n_plots \<le> 0\<close> or
  \<open>max_cols < 0\<close>, it returns a pair. In particular positive inputs never fail.
\<close>

theorem find_pretty_grid_failure:
  "(find_pretty_grid N M = Inl ZeroDivisionError \<longleftrightarrow> M = 0)
   \<and> (\<exists>r c. find_pretty_grid N M = Inr (r, c)) = (M \<noteq> 0)"
proof (cases "M = 0")
  case True
  then show ?thesis by (simp add: find_pretty_grid_def)
next
  case False
  have "\<exists>r c. grid_scan N (ceil_div N M) M M M = Inr (r, c)"
    using grid_scan_neg_returns [of M] grid_scan_pos_returns [of M] False
    by (cases "M < 0") simp_all
  then have "\<exists>r c. find_pretty_grid N M = Inr (r, c)"
    using False by (simp add: find_pretty_grid_def)
  then show ?thesis using False by auto
qed

theorem find_pretty_grid_failure_witness:
  "find_pretty_grid 3 0 = Inl ZeroDivisionError \<and> (\<exists>r c. find_pretty_grid 7 3 = Inr (r, c))"
  using find_pretty_grid_failure [of 3 0] find_pretty_grid_failure [of 7 3] by simp

text \<open>
  Degenerate inputs that are accepted: no plots, a negative number of plots and a
  negative column bound all return a pair instead of raising.
\<close>

theorem find_pretty_grid_no_validation:
  "find_pretty_grid 0 5 = Inr (0, 5) \<and> find_pretty_grid (- 3) 5 = Inr (- 1, 3)
   \<and> find_pretty_grid 3 (- 5) = Inr (0, - 5) \<and> find_pretty_grid 3 0 = Inl ZeroDivisionError"
  by (simp add: find_pretty_grid_def ceil_div_def grid_scan.simps)

subsection \<open>Outlier trimming\<close>

lemma quantile_nonempty:
  assumes "vs \<noteq> []"
  shows "quantile vs q =
           (let xs = sort vs;
                h = real (length xs - 1) * q;
                lo = nat \<lfloor>h\<rfloor>;
                hi = min (lo + 1) (length xs - 1)
            in Some (xs ! lo + (h - real lo) * (xs ! hi - xs ! lo)))"
  unfolding quantile_def using assms by (rule if_not_P)


lemma quantile_None:
  "quantile [] q = None"
  unfolding quantile_def by (rule if_P) (rule refl)

lemma dropna_Nil_iff:
  "dropna series = [] \<longleftrightarrow> (\<forall>x\<in>set series. x = None)"
  by (induction series) (auto simp: dropna_def split: option.splits)

lemma inlier_range_in_widened:
  assumes "inlier_range series = Inr (rl, rh)"
  shows "in_widened series v = (rl \<le> v \<and> v \<le> rh)"
  using assms
  by (auto simp: inlier_range_def in_widened_def Let_def split: option.splits if_splits)

lemma interp_bounds:
  fixes xs :: "real list"
  assumes s: "sorted xs" and l: "l < length xs" and f: "0 \<le> f" "f \<le> 1"
  shows "xs ! l \<le> xs ! l + f * (xs ! min (l + 1) (length xs - 1) - xs ! l)"
    and "xs ! l + f * (xs ! min (l + 1) (length xs - 1) - xs ! l) \<le> xs ! min (l + 1) (length xs - 1)"
proof -
  let ?u = "min (l + 1) (length xs - 1)"
  have u: "l \<le> ?u" "?u < length xs" using l by auto
  have d: "0 \<le> xs ! ?u - xs ! l" using sorted_nth_mono [OF s u] by simp
  show "xs ! l \<le> xs ! l + f * (xs ! ?u - xs ! l)" using d f by simp
  have "f * (xs ! ?u - xs ! l) \<le> 1 * (xs ! ?u - xs ! l)"
    using d f by (intro mult_right_mono) simp_all
  then show "xs ! l + f * (xs ! ?u - xs ! l) \<le> xs ! ?u" by simp
qed

lemma quantile_mono:
  assumes "0 \<le> p" "p \<le> q" "q \<le> 1"
    and "quantile vs p = Some a" "quantile vs q = Some b"
  shows "a \<le> b"
proof -
  have ne: "vs \<noteq> []" using assms(4) quantile_None [of p] by auto
  define xs where "xs = sort vs"
  define n where "n = length xs"
  have s: "sorted xs" by (simp add: xs_def)
  have npos: "0 < n" using ne by (simp add: n_def xs_def)
  define g where "g h = xs ! nat \<lfloor>h\<rfloor> + (h - real (nat \<lfloor>h\<rfloor>)) *
      (xs ! min (nat \<lfloor>h\<rfloor> + 1) (n - 1) - xs ! nat \<lfloor>h\<rfloor>)" for h :: real
  have "quantile vs p = Some (g (real (n - 1) * p))" "quantile vs q = Some (g (real (n - 1) * q))"
    unfolding quantile_nonempty [OF ne] Let_def g_def xs_def n_def by (rule refl)+
  then have a: "a = g (real (n - 1) * p)" and b: "b = g (real (n - 1) * q)"
    using assms(4,5) by simp_all
  let ?h1 = "real (n - 1) * p" and ?h2 = "real (n - 1) * q"
  have h: "0 \<le> ?h1" "?h1 \<le> ?h2" "?h2 \<le> real (n - 1)"
    using assms(1-3) by (simp_all add: mult_left_mono mult_left_le)
  define l1 where "l1 = nat \<lfloor>?h1\<rfloor>"
  define l2 where "l2 = nat \<lfloor>?h2\<rfloor>"
  have fl1: "0 \<le> \<lfloor>?h1\<rfloor>" using h(1) by simp
  have fl2: "\<lfloor>?h1\<rfloor> \<le> \<lfloor>?h2\<rfloor>" by (rule floor_mono [OF h(2)])
  have fl3: "\<lfloor>?h2\<rfloor> \<le> int (n - 1)" using floor_mono [OF h(3)] by simp
  note fl = fl1 fl2 fl3
  have l12: "l1 \<le> l2" "l2 \<le> n - 1" using fl by (simp_all add: l1_def l2_def nat_mono)
  have in2: "l2 < length xs" using l12(2) npos unfolding n_def by linarith
  have in1: "l1 < length xs" using l12(1) in2 by linarith
  have fl0: "0 \<le> \<lfloor>?h2\<rfloor>" using fl1 fl2 by linarith
  have r1: "real l1 = of_int \<lfloor>?h1\<rfloor>" unfolding l1_def by (rule of_nat_nat [OF fl1])
  have r2: "real l2 = of_int \<lfloor>?h2\<rfloor>" unfolding l2_def by (rule of_nat_nat [OF fl0])
  have f1: "0 \<le> ?h1 - real l1" "?h1 - real l1 \<le> 1" unfolding r1 by linarith+
  have f2: "0 \<le> ?h2 - real l2" "?h2 - real l2 \<le> 1" unfolding r2 by linarith+
  have ga: "g ?h1 = xs ! l1 + (?h1 - real l1) * (xs ! min (l1 + 1) (length xs - 1) - xs ! l1)"
    unfolding g_def l1_def n_def by (rule refl)
  have gb: "g ?h2 = xs ! l2 + (?h2 - real l2) * (xs ! min (l2 + 1) (length xs - 1) - xs ! l2)"
    unfolding g_def l2_def n_def by (rule refl)
  show ?thesis
  proof (cases "l1 = l2")
    case True
    let ?u = "min (l1 + 1) (length xs - 1)"
    have u: "l1 \<le> ?u" "?u < length xs" using in1 by auto
    have d: "0 \<le> xs ! ?u - xs ! l1" using sorted_nth_mono [OF s u] by simp
    have "(?h1 - real l1) * (xs ! ?u - xs ! l1) \<le> (?h2 - real l1) * (xs ! ?u - xs ! l1)"
      using d h(2) by (intro mult_right_mono) simp_all
    then show ?thesis unfolding a b ga gb using True by simp
  next
    case False
    then have lt: "Suc l1 \<le> l2" using l12 by simp
    then have m: "min (Suc l1) (length xs - Suc 0) = Suc l1" using l12 by (simp add: n_def)
    have "g ?h1 \<le> xs ! Suc l1"
      unfolding ga using interp_bounds(2) [OF s in1 f1] by (simp add: m)
    also have "\<dots> \<le> xs ! l2" using sorted_nth_mono [OF s lt in2] .
    also have "\<dots> \<le> g ?h2" unfolding gb using interp_bounds(1) [OF s in2 f2] by simp
    finally show ?thesis unfolding a b .
  qed
qed

text \<open>
  Claim C2, as the code has it. For a series whose 1st percentile \<open>low\<close> is below its 99th
  percentile \<open>high\<close>, \<open>_inlier_range\<close> returns
  \<open>(low - (high - low) / 2, high + (high - low) / 2)\<close>, so that
  \<open>returned_low < low < high < returned_high\<close> and the returned interval is twice as wide
  as \<open>[low, high]\<close>. The percentiles always satisfy \<open>low \<le> high\<close>; when they are equal
  (a constant series), the assertion of the function fails and nothing is returned.
\<close>

theorem inlier_range_widened:
  assumes "nanquantile series (1 / 100) = Some low" "nanquantile series (99 / 100) = Some high"
  shows "low \<le> high
         \<and> (low < high \<longrightarrow>
            (\<exists>rl rh. inlier_range series = Inr (rl, rh)
               \<and> rl = low - (high - low) / 2 \<and> rh = high + (high - low) / 2
               \<and> rl < low \<and> low < high \<and> high < rh \<and> rh - rl = 2 * (high - low)))
         \<and> (low = high \<longrightarrow> inlier_range series = Inl AssertionError)"
proof -
  have "low \<le> high"
    using assms quantile_mono [of "1 / 100" "99 / 100" "dropna series" low high]
    by (simp add: nanquantile_def)
  then show ?thesis using assms by (simp add: inlier_range_def Let_def)
qed

theorem inlier_range_widened_witness:
  "nanquantile [Some 0, None, Some 100] (1 / 100) = Some 1
   \<and> nanquantile [Some 0, None, Some 100] (99 / 100) = Some 99
   \<and> inlier_range [Some 0, None, Some 100] = Inr (- 48, 148)"
proof -
  have q: "nanquantile [Some 0, None, Some 100] (1 / 100) = Some 1"
      "nanquantile [Some 0, None, Some 100] (99 / 100) = Some 99"
    by (simp_all add: nanquantile_def quantile_def dropna_def Let_def)
  show ?thesis using inlier_range_widened [OF q] q by simp
qed

text \<open>
  A constant series: both percentiles are \<open>1\<close>, and the function raises instead of
  returning a pair.
\<close>

theorem inlier_range_constant_series:
  "nanquantile [Some 1, Some 1, None] (1 / 100) = Some 1
   \<and> nanquantile [Some 1, Some 1, None] (99 / 100) = Some 1
   \<and> inlier_range [Some 1, Some 1, None] = Inl AssertionError"
  by (simp add: inlier_range_def nanquantile_def quantile_def dropna_def Let_def)






















subsection \<open>Validation in \<open>plot_coefficients\<close>\<close>

text \<open>
  Claim C8, as the code has it. \<open>plot_coefficients\<close> raises \<open>ValueError\<close> whenever the
  number of coefficients differs from the number of feature names, and whenever the
  coefficient array still has more than one axis after its axes of length one are
  removed; these are the only inputs it rejects. An array that is not one-dimensional
  but has at most one axis longer than one (a row or column vector, an array without
  axes) is accepted.
\<close>

theorem plot_coefficients_rejects:
  "(length (entries a) \<noteq> length names \<longrightarrow> (\<exists>msg. plot_coefficients a names = Inl (ValueError msg)))
   \<and> (1 < ndim (squeeze a) \<longrightarrow>
        plot_coefficients a names = Inl (ValueError ''coefficients must be 1d array or column vector''))
   \<and> ((\<exists>e. plot_coefficients a names = Inl e) \<longleftrightarrow>
        (1 < ndim (squeeze a) \<or> length (entries a) \<noteq> length names))
   \<and> (ndim (squeeze a) \<le> 1 \<and> length (entries a) = length names \<longrightarrow>
        plot_coefficients a names = Inr (entries a, names))"
  by (simp add: plot_coefficients_def Let_def squeeze_def ravel_def ndim_def)

theorem plot_coefficients_rejects_witness:
  "plot_coefficients \<lparr>shape = [2, 2], entries = [1, 2, 3, 4]\<rparr> [''a'', ''b'', ''c'', ''d'']
     = Inl (ValueError ''coefficients must be 1d array or column vector'')
   \<and> (\<exists>msg. plot_coefficients \<lparr>shape = [3], entries = [1, 2, 3]\<rparr> [''a'', ''b''] = Inl (ValueError msg))
   \<and> plot_coefficients \<lparr>shape = [2], entries = [1, 2]\<rparr> [''a'', ''b''] = Inr ([1, 2], [''a'', ''b''])"
  using plot_coefficients_rejects [of "\<lparr>shape = [2, 2], entries = [1, 2, 3, 4]\<rparr>" "[''a'', ''b'', ''c'', ''d'']"]
    plot_coefficients_rejects [of "\<lparr>shape = [3], entries = [1, 2, 3]\<rparr>" "[''a'', ''b'']"]
    plot_coefficients_rejects [of "\<lparr>shape = [2], entries = [1, 2]\<rparr>" "[''a'', ''b'']"]
  by (simp add: squeeze_def ndim_def)

text \<open>
  A row vector of shape \<open>(1, 3)\<close> and an array without axes are not one-dimensional,
  and both are accepted.
\<close>

theorem plot_coefficients_accepts_row_vector:
  "well_shaped \<lparr>shape = [1, 3], entries = [1, 2, 3]\<rparr>
   \<and> ndim \<lparr>shape = [1, 3], entries = [1, 2, 3]\<rparr> = 2
   \<and> plot_coefficients \<lparr>shape = [1, 3], entries = [1, 2, 3]\<rparr> [''a'', ''b'', ''c'']
       = Inr ([1, 2, 3], [''a'', ''b'', ''c''])
   \<and> ndim \<lparr>shape = [], entries = [5]\<rparr> = 0
   \<and> plot_coefficients \<lparr>shape = [], entries = [5]\<rparr> [''a''] = Inr ([5], [''a''])"
  by (simp add: plot_coefficients_def Let_def squeeze_def ravel_def ndim_def well_shaped_def)

subsection \<open>The bins of \<open>class_hists\<close>\<close>









subsection \<open>The checks of \<open>_check_X_target_col\<close>\<close>

text \<open>
  Claim C9, as the code has it. For a target column of the table and detected types
  \<open>t\<close> (given, or computed by \<open>detect_types\<close>): the function raises whenever the target
  column has fewer than two distinct values, and it raises whenever the task is
  classification and the target is not detected as categorical, or the task is
  regression and the target is not detected as continuous. The error for the wrong
  kind is the one raised when the target has at least two distinct values; with fewer,
  the check of the number of values comes first and its error is raised.
\<close>

theorem check_X_target_col_raises:
  assumes "map_of X name = Some column"
    and "types = Some t \<or> (types = None \<and> detect_types X hints = Inr t)"
    and "t name = Some k"
  shows "(nunique column < 2 \<longrightarrow>
            (\<exists>e. check_X_target_col detect_types index X (Name name) types hints task = Inl e))
         \<and> (nunique column < 2 \<and> Num 0 \<in> set index \<longrightarrow>
              check_X_target_col detect_types index X (Name name) types hints task
                = Inl (ValueError ''Less than two classes present''))
         \<and> (task = Some ''classification'' \<and> \<not> is_categorical k \<longrightarrow>
              (\<exists>e. check_X_target_col detect_types index X (Name name) types hints task = Inl e))
         \<and> (task = Some ''regression'' \<and> \<not> is_continuous k \<longrightarrow>
              (\<exists>e. check_X_target_col detect_types index X (Name name) types hints task = Inl e))
         \<and> (2 \<le> nunique column \<and> task = Some ''classification'' \<and> \<not> is_categorical k \<longrightarrow>
              check_X_target_col detect_types index X (Name name) types hints task
                = Inl (ValueError ''need categorical for classification''))
         \<and> (2 \<le> nunique column \<and> task = Some ''regression'' \<and> \<not> is_continuous k \<longrightarrow>
              check_X_target_col detect_types index X (Name name) types hints task
                = Inl (ValueError ''need continuous for regression''))
         \<and> (2 \<le> nunique column
              \<and> (task = Some ''classification'' \<longrightarrow> is_categorical k)
              \<and> (task = Some ''regression'' \<longrightarrow> is_continuous k) \<longrightarrow>
              check_X_target_col detect_types index X (Name name) types hints task = Inr t)"
  using assms by (auto simp: check_X_target_col_def)

theorem check_X_target_col_raises_witness:
  "check_X_target_col (\<lambda>X h. Inr Map.empty) [Num 0, Num 1] [(''y'', FloatCol [Some 1, Some 2])]
       (Name ''y'') (Some [''y'' \<mapsto> \<lparr>is_categorical = False, is_continuous = True\<rparr>]) ()
       (Some ''classification'')
     = Inl (ValueError ''need categorical for classification'')
   \<and> check_X_target_col (\<lambda>X h. Inr Map.empty) [Num 0, Num 1] [(''y'', FloatCol [Some 1, None])]
       (Name ''y'') (Some [''y'' \<mapsto> \<lparr>is_categorical = True, is_continuous = False\<rparr>]) ()
       (Some ''classification'')
     = Inl (ValueError ''Less than two classes present'')"
proof -
  let ?t = "[''y'' \<mapsto> \<lparr>is_categorical = False, is_continuous = True\<rparr>]"
  let ?u = "[''y'' \<mapsto> \<lparr>is_categorical = True, is_continuous = False\<rparr>]"
  have a: "check_X_target_col (\<lambda>X h. Inr Map.empty) [Num 0, Num 1]
       [(''y'', FloatCol [Some 1, Some 2])] (Name ''y'')
       (Some ?t) () (Some ''classification'') = Inl (ValueError ''need categorical for classification'')"
    using check_X_target_col_raises [of "[(''y'', FloatCol [Some 1, Some 2])]" "''y''"
        "FloatCol [Some 1, Some 2]" "Some ?t" ?t "\<lambda>X h. Inr Map.empty" "()"
        "\<lparr>is_categorical = False, is_continuous = True\<rparr>" "[Num 0, Num 1]"
        "Some ''classification''"]
    by (simp add: nunique_def dropna_def)
  have b: "check_X_target_col (\<lambda>X h. Inr Map.empty) [Num 0, Num 1]
       [(''y'', FloatCol [Some 1, None])] (Name ''y'')
       (Some ?u) () (Some ''classification'') = Inl (ValueError ''Less than two classes present'')"
    using check_X_target_col_raises [of "[(''y'', FloatCol [Some 1, None])]" "''y''"
        "FloatCol [Some 1, None]" "Some ?u" ?u "\<lambda>X h. Inr Map.empty" "()"
        "\<lparr>is_categorical = True, is_continuous = False\<rparr>" "[Num 0, Num 1]"
        "Some ''classification''"]
    by (simp add: nunique_def dropna_def)
  show ?thesis using a b by simp
qed

text \<open>
  A target that is detected as continuous, for the task classification, with one
  distinct value: the error is the one for fewer than two classes, not the one for the
  wrong kind.
\<close>

theorem check_X_target_col_first_error:
  "check_X_target_col (\<lambda>X h. Inr Map.empty) [Num 0, Num 1] [(''y'', FloatCol [Some 1, Some 1])]
       (Name ''y'') (Some [''y'' \<mapsto> \<lparr>is_categorical = False, is_continuous = True\<rparr>]) ()
       (Some ''classification'')
     = Inl (ValueError ''Less than two classes present'')
   \<and> nunique (FloatCol [Some 1, Some 1]) = 1
   \<and> ValueError ''Less than two classes present'' \<noteq> ValueError ''need categorical for classification''"
  by (simp add: check_X_target_col_def nunique_def dropna_def)

subsection \<open>Category pruning\<close>

lemma set_dropna:
  "set (dropna xs) = {x. Some x \<in> set xs}"
  by (induction xs) (auto simp: dropna_def split: option.splits)

lemma codes_astype_category:
  "codes (astype_category series) = values_of series"
  by (cases series) simp_all

lemma wf_fresh_categorical:
  "wf_categorical \<lparr>categories = sort (remdups (dropna vs)), codes = vs\<rparr>"
  by (auto simp: wf_categorical_def set_dropna split: option.splits)

lemma wf_astype_category:
  assumes "wf_column series"
  shows "wf_categorical (astype_category series)"
proof (cases series)
  case (CategoryCol c)
  then show ?thesis using assms by (simp add: wf_column_def)
next
  case (FloatCol vs)
  then show ?thesis by (simp add: wf_fresh_categorical)
next
  case (ObjectCol vs)
  then show ?thesis by (simp add: wf_fresh_categorical)
qed

lemma value_counts_set:
  "set (value_counts c) = set (categories c)"
  by (simp add: value_counts_def)

lemma value_counts_distinct:
  "distinct (value_counts c) = distinct (categories c)"
  by (simp add: value_counts_def)

lemma value_counts_sorted:
  "sorted (map (\<lambda>x. - int (count_of c x)) (value_counts c))"
  by (simp add: value_counts_def)

lemma slice_from_nonneg:
  "0 \<le> k \<Longrightarrow> slice_from k xs = drop (nat k) xs"
  by (simp add: slice_from_def)

lemma take_more_frequent:
  assumes "x \<in> set (take n (value_counts c))" "y \<in> set (drop n (value_counts c))"
  shows "count_of c y \<le> count_of c x"
proof -
  let ?f = "\<lambda>x. - int (count_of c x)"
  have "sorted (map ?f (take n (value_counts c)) @ map ?f (drop n (value_counts c)))"
    using value_counts_sorted [of c] by (simp flip: map_append)
  then have "?f x \<le> ?f y" using assms by (auto simp: sorted_append)
  then show ?thesis by simp
qed

lemma take_drop_partition:
  assumes "distinct xs"
  shows "set xs - set (drop n xs) = set (take n xs)"
proof -
  have "set (take n xs) \<inter> set (drop n xs) = {}"
    using assms by (metis append_take_drop_id distinct_append)
  moreover have "set xs = set (take n xs) \<union> set (drop n xs)"
    by (metis append_take_drop_id set_append)
  ultimately show ?thesis by auto
qed

lemma prune_categorical:
  assumes wf: "wf_categorical c" and K: "0 \<le> K"
  defines "kept \<equiv> take (nat K) (value_counts c)"
  defines "pruned \<equiv> map (\<lambda>v. case v of None \<Rightarrow> Some (Str ''dabl_other'')
                          | Some x \<Rightarrow> if x \<in> set kept then Some x else Some (Str ''dabl_other'')) (codes c)"
  shows "Str ''dabl_other'' \<notin> set kept \<Longrightarrow>
           prune_categories (CategoryCol c) K =
             Inr \<lparr>categories = filter (\<lambda>x. x \<in> set kept) (categories c) @ [Str ''dabl_other''],
                  codes = pruned\<rparr>"
    and "Str ''dabl_other'' \<in> set kept \<Longrightarrow>
           prune_categories (CategoryCol c) K =
             Inl (ValueError ''new categories must not include old categories'')"
proof -
  let ?vc = "value_counts c"
  let ?small = "drop (nat K) ?vc"
  have d: "distinct ?vc" using wf by (simp add: value_counts_distinct wf_categorical_def)
  have part: "set (categories c) - set ?small = set kept"
    using take_drop_partition [OF d, of "nat K"] by (simp add: kept_def value_counts_set)
  have sub: "set ?small \<subseteq> set (categories c)"
    using set_drop_subset [of "nat K" ?vc] by (simp add: value_counts_set)
  have mem: "x \<notin> set ?small \<longleftrightarrow> x \<in> set kept" if "x \<in> set (categories c)" for x
    using part that by auto
  have cats: "filter (\<lambda>x. x \<notin> set ?small) (categories c) = filter (\<lambda>x. x \<in> set kept) (categories c)"
    using mem by (intro filter_cong) auto
  have cds: "map (\<lambda>v. case v of None \<Rightarrow> None | Some x \<Rightarrow> if x \<in> set ?small then None else Some x) (codes c)
           = map (\<lambda>v. case v of None \<Rightarrow> None | Some x \<Rightarrow> if x \<in> set kept then Some x else None) (codes c)"
  proof (intro map_cong refl)
    fix v assume v: "v \<in> set (codes c)"
    show "(case v of None \<Rightarrow> None | Some x \<Rightarrow> if x \<in> set ?small then None else Some x)
        = (case v of None \<Rightarrow> None | Some x \<Rightarrow> if x \<in> set kept then Some x else None)"
    proof (cases v)
      case None then show ?thesis by simp
    next
      case (Some x)
      then have "x \<in> set (categories c)" using wf v by (auto simp: wf_categorical_def)
      then show ?thesis using mem Some by auto
    qed
  qed
  have rem: "remove_categories (slice_from K ?vc) c =
      Inr \<lparr>categories = filter (\<lambda>x. x \<in> set kept) (categories c),
           codes = map (\<lambda>v. case v of None \<Rightarrow> None | Some x \<Rightarrow> if x \<in> set kept then Some x else None) (codes c)\<rparr>"
    using sub cats cds K by (simp add: remove_categories_def slice_from_nonneg)
  have setf: "set (filter (\<lambda>x. x \<in> set kept) (categories c)) = set kept"
    using part by auto
  have fill: "map (\<lambda>x. case x of None \<Rightarrow> Some (Str ''dabl_other'') | Some y \<Rightarrow> Some y)
                (map (\<lambda>v. case v of None \<Rightarrow> None | Some x \<Rightarrow> if x \<in> set kept then Some x else None) (codes c))
              = pruned"
    by (auto simp: pruned_def split: option.splits)
  show "prune_categories (CategoryCol c) K =
             Inr \<lparr>categories = filter (\<lambda>x. x \<in> set kept) (categories c) @ [Str ''dabl_other''],
                  codes = pruned\<rparr>" if "Str ''dabl_other'' \<notin> set kept"
    using that rem setf fill
    by (simp add: prune_categories_def Let_def add_categories_def fillna_categorical_def)
  show "prune_categories (CategoryCol c) K =
             Inl (ValueError ''new categories must not include old categories'')"
    if "Str ''dabl_other'' \<in> set kept"
    using that rem setf
    by (simp add: prune_categories_def Let_def add_categories_def)
qed

lemma prune_categories_astype:
  "prune_categories series K = prune_categories (CategoryCol (astype_category series)) K"
  by (simp add: prune_categories_def)

lemma kept_categories_most_frequent:
  "length (kept_categories series K) = min (nat K) (length (categories (astype_category series)))"
  "wf_column series \<Longrightarrow> distinct (kept_categories series K)"
  "x \<in> set (kept_categories series K) \<Longrightarrow>
     y \<in> set (categories (astype_category series)) - set (kept_categories series K) \<Longrightarrow>
     count_of (astype_category series) y \<le> count_of (astype_category series) x"
proof -
  let ?c = "astype_category series"
  show "length (kept_categories series K) = min (nat K) (length (categories ?c))"
    by (simp add: kept_categories_def value_counts_def min.commute)
  show "distinct (kept_categories series K)" if "wf_column series"
    using wf_astype_category [OF that]
    by (simp add: kept_categories_def value_counts_distinct wf_categorical_def)
  show "count_of ?c y \<le> count_of ?c x"
    if x: "x \<in> set (kept_categories series K)"
      and y: "y \<in> set (categories ?c) - set (kept_categories series K)"
  proof -
    have "set (value_counts ?c) = set (take (nat K) (value_counts ?c)) \<union> set (drop (nat K) (value_counts ?c))"
      by (metis append_take_drop_id set_append)
    then have "y \<in> set (drop (nat K) (value_counts ?c))"
      using y by (auto simp: kept_categories_def value_counts_set)
    then show ?thesis using x take_more_frequent by (simp add: kept_categories_def)
  qed
qed

lemma card_pruned:
  fixes kept :: "cell list"
  shows "card (set (map (\<lambda>v. case v of None \<Rightarrow> Some s
                          | Some x \<Rightarrow> if x \<in> set kept then Some x else Some s) vs)) \<le> length kept + 1"
proof -
  let ?f = "\<lambda>v. case v of None \<Rightarrow> Some s | Some x \<Rightarrow> if x \<in> set kept then Some x else Some s"
  have "set (map ?f vs) \<subseteq> insert (Some s) (Some ` set kept)"
    by (auto split: option.splits)
  then have "card (set (map ?f vs)) \<le> card (insert (Some s) (Some ` set kept))"
    by (intro card_mono) simp_all
  also have "\<dots> \<le> card (Some ` set kept) + 1" by (simp add: card_insert_if)
  also have "\<dots> \<le> card (set kept) + 1" by (simp add: card_image_le)
  also have "\<dots> \<le> length kept + 1" by (simp add: card_length)
  finally show ?thesis .
qed

text \<open>
  Claim C3, as the code has it. For a series that obeys the invariant of its dtype and
  a category count \<open>K \<ge> 0\<close>, the kept categories are the first \<open>K\<close> of the categories
  by descending frequency (all of them when there are fewer): they are distinct, and no
  category outside of them is more frequent than one of them. When \<open>'dabl_other'\<close> is
  not one of the kept categories, \<open>_prune_categories\<close> returns a series of the same
  length in which every entry of a kept category is unchanged and every other entry,
  missing or of another category, is \<open>'dabl_other'\<close>; no entry is missing, and the series
  has at most \<open>K + 1\<close> distinct values. When \<open>'dabl_other'\<close> is itself one of the kept
  categories, adding it as a new category raises \<open>ValueError\<close>.
\<close>

theorem prune_categories_keeps_top:
  assumes "wf_column series" "0 \<le> K"
  shows "(Str ''dabl_other'' \<notin> set (kept_categories series K) \<longrightarrow>
            (\<exists>res. prune_categories series K = Inr res
               \<and> length (codes res) = length (values_of series)
               \<and> (\<forall>i<length (values_of series).
                     codes res ! i =
                       (case values_of series ! i of
                          None \<Rightarrow> Some (Str ''dabl_other'')
                        | Some x \<Rightarrow> if x \<in> set (kept_categories series K) then Some x
                                    else Some (Str ''dabl_other'')))
               \<and> None \<notin> set (codes res)
               \<and> card (set (codes res)) \<le> nat K + 1))
         \<and> (Str ''dabl_other'' \<in> set (kept_categories series K) \<longrightarrow>
              prune_categories series K
                = Inl (ValueError ''new categories must not include old categories''))
         \<and> length (kept_categories series K)
              = min (nat K) (length (categories (astype_category series)))
         \<and> distinct (kept_categories series K)
         \<and> (\<forall>x\<in>set (kept_categories series K).
               \<forall>y\<in>set (categories (astype_category series)) - set (kept_categories series K).
                 count_of (astype_category series) y \<le> count_of (astype_category series) x)"
proof -
  let ?c = "astype_category series"
  let ?kept = "kept_categories series K"
  let ?f = "\<lambda>v. case v of None \<Rightarrow> Some (Str ''dabl_other'')
                | Some x \<Rightarrow> if x \<in> set ?kept then Some x else Some (Str ''dabl_other'')"
  have wf: "wf_categorical ?c" by (rule wf_astype_category [OF assms(1)])
  have k: "?kept = take (nat K) (value_counts ?c)" by (simp add: kept_categories_def)
  have ok: "prune_categories series K =
              Inr \<lparr>categories = filter (\<lambda>x. x \<in> set ?kept) (categories ?c) @ [Str ''dabl_other''],
                   codes = map ?f (values_of series)\<rparr>"
    if "Str ''dabl_other'' \<notin> set ?kept"
    using prune_categorical(1) [OF wf assms(2)] that
    unfolding k prune_categories_astype [of series] codes_astype_category by simp
  have bad: "prune_categories series K
                = Inl (ValueError ''new categories must not include old categories'')"
    if "Str ''dabl_other'' \<in> set ?kept"
    using prune_categorical(2) [OF wf assms(2)] that
    unfolding k prune_categories_astype [of series] by simp
  have len: "length ?kept \<le> nat K" by (simp add: k)
  have card: "card (set (map ?f (values_of series))) \<le> nat K + 1"
    using card_pruned [of "Str ''dabl_other''" ?kept "values_of series"] len by linarith
  have none: "None \<notin> set (map ?f (values_of series))"
    by (auto split: option.splits if_splits)
  have first: "Str ''dabl_other'' \<notin> set ?kept \<longrightarrow>
            (\<exists>res. prune_categories series K = Inr res
               \<and> length (codes res) = length (values_of series)
               \<and> (\<forall>i<length (values_of series). codes res ! i = ?f (values_of series ! i))
               \<and> None \<notin> set (codes res)
               \<and> card (set (codes res)) \<le> nat K + 1)"
  proof
    assume "Str ''dabl_other'' \<notin> set ?kept"
    then show "\<exists>res. prune_categories series K = Inr res
               \<and> length (codes res) = length (values_of series)
               \<and> (\<forall>i<length (values_of series). codes res ! i = ?f (values_of series ! i))
               \<and> None \<notin> set (codes res)
               \<and> card (set (codes res)) \<le> nat K + 1"
      using ok card none by simp
  qed
  show ?thesis
    using first bad kept_categories_most_frequent(1) [of series K]
      kept_categories_most_frequent(2) [OF assms(1), of K]
      kept_categories_most_frequent(3) [of _ series K]
    by blast
qed

theorem prune_categories_keeps_top_witness:
  "wf_column (ObjectCol [Some (Str ''a''), Some (Str ''b''), Some (Str ''a''), None, Some (Str ''c'')])
   \<and> kept_categories (ObjectCol [Some (Str ''a''), Some (Str ''b''), Some (Str ''a''), None, Some (Str ''c'')]) 1
       = [Str ''a'']
   \<and> prune_categories (ObjectCol [Some (Str ''a''), Some (Str ''b''), Some (Str ''a''), None, Some (Str ''c'')]) 1
       = Inr \<lparr>categories = [Str ''a'', Str ''dabl_other''],
              codes = [Some (Str ''a''), Some (Str ''dabl_other''), Some (Str ''a''),
                       Some (Str ''dabl_other''), Some (Str ''dabl_other'')]\<rparr>"
proof -
  let ?s = "ObjectCol [Some (Str ''a''), Some (Str ''b''), Some (Str ''a''), None, Some (Str ''c'')]"
  have w: "wf_column ?s" by (simp add: wf_column_def)
  have k: "kept_categories ?s 1 = [Str ''a'']" by code_simp
  have p: "prune_categories ?s 1
       = Inr \<lparr>categories = [Str ''a'', Str ''dabl_other''],
              codes = [Some (Str ''a''), Some (Str ''dabl_other''), Some (Str ''a''),
                       Some (Str ''dabl_other''), Some (Str ''dabl_other'')]\<rparr>" by code_simp
  have "\<exists>res. prune_categories ?s 1 = Inr res \<and> card (set (codes res)) \<le> nat 1 + 1"
    using prune_categories_keeps_top [OF w, of 1] k by auto
  then show ?thesis using w k p by simp
qed

text \<open>
  A series in which \<open>'dabl_other'\<close> is the most frequent value: with one category to
  keep, the function raises and returns no series.
\<close>

theorem prune_categories_sentinel_clash:
  "kept_categories (ObjectCol [Some (Str ''dabl_other''), Some (Str ''dabl_other''), Some (Str ''a'')]) 1
     = [Str ''dabl_other'']
   \<and> prune_categories (ObjectCol [Some (Str ''dabl_other''), Some (Str ''dabl_other''), Some (Str ''a'')]) 1
     = Inl (ValueError ''new categories must not include old categories'')"
  by code_simp

subsection \<open>Tables on the heap\<close>

lemma alloc_fresh:
  "alloc h f = (length h, h @ [f])"
  by (simp add: alloc_def)

lemma set_column_fresh:
  "set_column (h @ [f]) (length h) name c = h @ [AList.update name c f]"
  by (simp add: set_column_def)

lemma set_column_fresh2:
  "set_column (h @ [g, f]) (Suc (length h)) name c = h @ [g, AList.update name c f]"
  by (simp add: set_column_def list_update_append nth_append)

lemma keys_update:
  "set (map fst (AList.update k v al)) = insert k (set (map fst al))"
  by (induction al) auto

lemma keys_update_present:
  "map_of al k = Some w \<Longrightarrow> map fst (AList.update k v al) = map fst al"
  by (induction al) (auto split: if_splits)

text \<open>
  Claim C10, as the code has it. For a table \<open>X\<close> on the heap with the columns \<open>col\<close> and
  \<open>target_col\<close>: when \<open>col\<close> has more than \<open>max_categories\<close> distinct values and
  \<open>_prune_categories\<close> returns its pruned series, the result is a new table that holds
  the target column and the pruned column and no other column; when
  \<open>_prune_categories\<close> raises, so does the call; when \<open>col\<close> has at most
  \<open>max_categories\<close> distinct values, the result is a new table with the columns of \<open>X\<close>,
  with \<open>col\<close> as a categorical column. In every case each table that was on the heap
  before the call, the caller's \<open>X\<close> among them, is the same after it.
\<close>

theorem prune_category_make_X_result:
  assumes "X < length h" "map_of (h ! X) col = Some c" "map_of (h ! X) target_col = Some t"
  shows "(max_categories < int (nunique c)
            \<and> prune_categories c (min 10 max_categories) = Inr pruned \<longrightarrow>
            (\<exists>X_new h'. prune_category_make_X h X col target_col max_categories = (Inr X_new, h')
               \<and> length h \<le> X_new \<and> X_new < length h'
               \<and> h' ! X_new = AList.update col (CategoryCol pruned) [(target_col, t)]
               \<and> set (map fst (h' ! X_new)) = {target_col, col}))
         \<and> (max_categories < int (nunique c)
              \<and> prune_categories c (min 10 max_categories) = Inl e \<longrightarrow>
              prune_category_make_X h X col target_col max_categories = (Inl e, h))
         \<and> (\<not> max_categories < int (nunique c) \<longrightarrow>
            (\<exists>X_new h'. prune_category_make_X h X col target_col max_categories = (Inr X_new, h')
               \<and> length h \<le> X_new \<and> X_new < length h'
               \<and> h' ! X_new = AList.update col (CategoryCol (astype_category c)) (h ! X)
               \<and> map fst (h' ! X_new) = map fst (h ! X)))
         \<and> take (length h) (snd (prune_category_make_X h X col target_col max_categories)) = h
         \<and> snd (prune_category_make_X h X col target_col max_categories) ! X = h ! X"
proof -
  let ?r = "prune_category_make_X h X col target_col max_categories"
  have big: "?r = (Inr (Suc (length h)),
                   h @ [[(target_col, t)], AList.update col (CategoryCol pruned) [(target_col, t)]])"
    if "max_categories < int (nunique c)" "prune_categories c (min 10 max_categories) = Inr pruned"
    for pruned
    using that assms
    by (simp add: prune_category_make_X_def alloc_fresh set_column_fresh2 nth_append)
  have err: "?r = (Inl e, h)"
    if "max_categories < int (nunique c)" "prune_categories c (min 10 max_categories) = Inl e"
    for e
    using that assms by (simp add: prune_category_make_X_def)
  have small: "?r = (Inr (length h),
                     h @ [AList.update col (CategoryCol (astype_category c)) (h ! X)])"
    if "\<not> max_categories < int (nunique c)"
    using that assms
    by (simp add: prune_category_make_X_def alloc_fresh set_column_fresh nth_append)
  have frame: "take (length h) (snd ?r) = h"
  proof (cases "max_categories < int (nunique c)")
    case True
    then show ?thesis
      using big err by (cases "prune_categories c (min 10 max_categories)") simp_all
  next
    case False
    then show ?thesis using small by simp
  qed
  have same: "snd ?r ! X = h ! X"
  proof -
    have "snd ?r ! X = take (length h) (snd ?r) ! X" using assms(1) by simp
    then show ?thesis using frame by simp
  qed
  have a: "max_categories < int (nunique c)
            \<and> prune_categories c (min 10 max_categories) = Inr pruned \<longrightarrow>
            (\<exists>X_new h'. ?r = (Inr X_new, h')
               \<and> length h \<le> X_new \<and> X_new < length h'
               \<and> h' ! X_new = AList.update col (CategoryCol pruned) [(target_col, t)]
               \<and> set (map fst (h' ! X_new)) = {target_col, col})"
    using big [of pruned] by (auto simp: nth_append keys_update)
  have b: "\<not> max_categories < int (nunique c) \<longrightarrow>
            (\<exists>X_new h'. ?r = (Inr X_new, h')
               \<and> length h \<le> X_new \<and> X_new < length h'
               \<and> h' ! X_new = AList.update col (CategoryCol (astype_category c)) (h ! X)
               \<and> map fst (h' ! X_new) = map fst (h ! X))"
    using small assms(2) by (auto simp: keys_update_present)
  show ?thesis using a b err frame same by blast
qed

theorem prune_category_make_X_result_witness:
  "prune_category_make_X
     [[(''t'', FloatCol [Some 1, Some 0, Some 1]),
       (''c'', ObjectCol [Some (Str ''b''), Some (Str ''b''), Some (Str ''a'')]),
       (''z'', FloatCol [None, None, None])]] 0 ''c'' ''t'' 1
     = (Inr 2,
        [[(''t'', FloatCol [Some 1, Some 0, Some 1]),
          (''c'', ObjectCol [Some (Str ''b''), Some (Str ''b''), Some (Str ''a'')]),
          (''z'', FloatCol [None, None, None])],
         [(''t'', FloatCol [Some 1, Some 0, Some 1])],
         [(''t'', FloatCol [Some 1, Some 0, Some 1]),
          (''c'', CategoryCol \<lparr>categories = [Str ''b'', Str ''dabl_other''],
                   codes = [Some (Str ''b''), Some (Str ''b''), Some (Str ''dabl_other'')]\<rparr>)]])
   \<and> fst (prune_category_make_X
     [[(''t'', FloatCol [Some 1, Some 0, Some 1]),
       (''c'', ObjectCol [Some (Str ''b''), Some (Str ''b''), Some (Str ''a'')]),
       (''z'', FloatCol [None, None, None])]] 0 ''c'' ''t'' 2) = Inr 1"
proof -
  let ?c = "ObjectCol [Some (Str ''b''), Some (Str ''b''), Some (Str ''a'')]"
  let ?t = "FloatCol [Some 1, Some 0, Some 1]"
  let ?X = "[(''t'', ?t), (''c'', ?c), (''z'', FloatCol [None, None, None])]"
  let ?p = "\<lparr>categories = [Str ''b'', Str ''dabl_other''],
             codes = [Some (Str ''b''), Some (Str ''b''), Some (Str ''dabl_other'')]\<rparr>"
  have n: "nunique ?c = 2" by (simp add: nunique_def dropna_def)
  have p: "prune_categories ?c (min 10 1) = Inr ?p" by code_simp
  have l: "(0::nat) < length [?X]" "map_of ([?X] ! 0) ''c'' = Some ?c"
      "map_of ([?X] ! 0) ''t'' = Some ?t" by simp_all
  have a: "\<exists>X_new h'. prune_category_make_X [?X] 0 ''c'' ''t'' 1 = (Inr X_new, h')
             \<and> h' ! X_new = AList.update ''c'' (CategoryCol ?p) [(''t'', ?t)]"
    using prune_category_make_X_result [OF l, of 1 ?p] n p by auto
  have b: "\<exists>X_new h'. prune_category_make_X [?X] 0 ''c'' ''t'' 2 = (Inr X_new, h')"
    using prune_category_make_X_result [OF l, of 2] n by auto
  have v1: "prune_category_make_X [?X] 0 ''c'' ''t'' 1
     = (Inr 2, [?X, [(''t'', ?t)], [(''t'', ?t), (''c'', CategoryCol ?p)]])"
    using n p by (simp add: prune_category_make_X_def alloc_def set_column_def)
  have v2: "fst (prune_category_make_X [?X] 0 ''c'' ''t'' 2) = Inr 1"
    using n by (simp add: prune_category_make_X_def alloc_def set_column_def)
  show ?thesis using a b v1 v2 by simp
qed

text \<open>
  A table whose column \<open>c\<close> has two distinct values, the more frequent of them
  \<open>'dabl_other'\<close>, with \<open>max_categories = 1\<close>: the call raises and returns no table.
\<close>

theorem prune_category_make_X_sentinel_clash:
  "nunique (ObjectCol [Some (Str ''dabl_other''), Some (Str ''dabl_other''), Some (Str ''a'')]) = 2
   \<and> fst (prune_category_make_X
       [[(''t'', FloatCol [Some 1, Some 0, Some 1]),
         (''c'', ObjectCol [Some (Str ''dabl_other''), Some (Str ''dabl_other''), Some (Str ''a'')])]]
       0 ''c'' ''t'' 1)
     = Inl (ValueError ''new categories must not include old categories'')"
proof -
  let ?c = "ObjectCol [Some (Str ''dabl_other''), Some (Str ''dabl_other''), Some (Str ''a'')]"
  have n: "nunique ?c = 2" by (simp add: nunique_def dropna_def)
  have p: "prune_categories ?c (min 10 1)
             = Inl (ValueError ''new categories must not include old categories'')" by code_simp
  show ?thesis using n p by (simp add: prune_category_make_X_def)
qed

subsection \<open>Filling missing entries\<close>

lemma fill_columns_other_tables:
  "take X (snd (fill_columns h X fill_value cols)) = take X h"
  by (induction cols arbitrary: h) (auto simp: set_column_def split: sum.splits)

lemma fill_missing_categorical_copy:
  "take (length h) (snd (fill_missing_categorical h X)) = h"
  using fill_columns_other_tables [of "length h" "h @ [h ! X]"]
  by (simp add: fill_missing_categorical_def alloc_def)

lemma fill_column_plain:
  "(case c of CategoryCol cat \<Rightarrow> False | _ \<Rightarrow> True) \<Longrightarrow>
     fill_column fill_value c = Inr (filled_column fill_value c)"
  by (cases c) (simp_all add: fill_column_def filled_column_def)

lemma map_of_append_fresh:
  "name \<notin> fst ` set pre \<Longrightarrow> map_of (pre @ (name, c) # post) name = Some c"
  by (induction pre) auto

lemma update_append_fresh:
  "name \<notin> fst ` set pre \<Longrightarrow>
     AList.update name v (pre @ (name, c) # post) = pre @ (name, v) # post"
  by (induction pre) auto

lemma fill_columns_all:
  assumes "distinct (map fst (pre @ post))" "plain_columns post"
  shows "fill_columns (h @ [pre @ post]) (length h) fill_value (map fst post)
           = (Inr (length h),
              h @ [pre @ map (\<lambda>(name, c). (name, filled_column fill_value c)) post])"
  using assms
proof (induction post arbitrary: pre)
  case Nil
  then show ?case by simp
next
  case (Cons p post)
  obtain name c where p: "p = (name, c)" by (cases p)
  have fresh: "name \<notin> fst ` set pre" using Cons.prems(1) p by auto
  have plain: "case c of CategoryCol cat \<Rightarrow> False | _ \<Rightarrow> True" "plain_columns post"
    using Cons.prems(2) p by (simp_all add: plain_columns_def)
  have d: "distinct (map fst ((pre @ [(name, filled_column fill_value c)]) @ post))"
    using Cons.prems(1) p by auto
  have "fill_columns (h @ [pre @ (name, c) # post]) (length h) fill_value (name # map fst post)
      = fill_columns (h @ [(pre @ [(name, filled_column fill_value c)]) @ post]) (length h)
          fill_value (map fst post)"
    using fresh plain(1) map_of_append_fresh [OF fresh, of c post]
    by (simp add: fill_column_plain set_column_def update_append_fresh del: map_of_append)
  then show ?case using Cons.IH [OF d plain(2)] p by simp
qed

lemma filled_column_present:
  assumes "case c of CategoryCol cat \<Rightarrow> False | _ \<Rightarrow> True"
  shows "filter (\<lambda>x. x = None) (values_of (filled_column (Some v) c)) = []"
  using assms
  by (cases c) (auto simp: filled_column_def fillna_def filter_empty_conv split: option.splits)

lemma no_missing_filled:
  assumes "plain_columns f"
  shows "count_missing (map (\<lambda>(name, c). (name, filled_column (Some v) c)) f) = 0"
  using assms
proof (induction f)
  case Nil
  then show ?case by (simp add: count_missing_def)
next
  case (Cons p f)
  obtain name c where p: "p = (name, c)" by (cases p)
  have plain: "case c of CategoryCol cat \<Rightarrow> False | _ \<Rightarrow> True" "plain_columns f"
    using Cons.prems p by (simp_all add: plain_columns_def)
  have "count_missing (map (\<lambda>(name, c). (name, filled_column (Some v) c)) f) = 0"
    by (rule Cons.IH [OF plain(2)])
  then show ?case
    using filled_column_present [OF plain(1), of v] by (simp add: count_missing_def p)
qed

lemma fill_missing_categorical_filled:
  assumes "X < length h" "distinct (map fst (h ! X))" "plain_columns (h ! X)"
  shows "fill_missing_categorical h X
           = (Inr (length h),
              h @ [map (\<lambda>(name, c).
                     (name, filled_column (map_option (\<lambda>m. m + 1) (max_numeric (h ! X))) c)) (h ! X)])"
    and "max_numeric (h ! X) = Some m \<Longrightarrow>
           count_missing (map (\<lambda>(name, c). (name, filled_column (Some (m + 1)) c)) (h ! X)) = 0"
proof -
  show "fill_missing_categorical h X
           = (Inr (length h),
              h @ [map (\<lambda>(name, c).
                     (name, filled_column (map_option (\<lambda>m. m + 1) (max_numeric (h ! X))) c)) (h ! X)])"
    using fill_columns_all [of "[]" "h ! X" h] assms
    by (simp add: fill_missing_categorical_def alloc_def)
  show "count_missing (map (\<lambda>(name, c). (name, filled_column (Some (m + 1)) c)) (h ! X)) = 0"
    by (rule no_missing_filled [OF assms(3)])
qed

text \<open>
  Claim C4 at a table whose only numeric column has no entry: the greatest numeric
  value is NaN, the fill value NaN plus one is NaN, and the returned copy has the two
  missing entries of the input.
\<close>

theorem fill_missing_categorical_all_missing:
  "fill_missing_categorical [[(''a'', FloatCol [None, None])]] 0
     = (Inr 1, [[(''a'', FloatCol [None, None])], [(''a'', FloatCol [None, None])]])
   \<and> count_missing [(''a'', FloatCol [None, None])] = 2"
  by (simp add: fill_missing_categorical_def alloc_def max_numeric_def numeric_entries_def
      dropna_def fill_column_def fillna_def set_column_def count_missing_def)

end
